theory Spec2Isabelle
  imports Complex_Main
begin

section \<open>Values of the program\<close>

text \<open>
  The repository is one TypeScript module, \<^verbatim>\<open>src/index.ts\<close>, exporting
  \<^verbatim>\<open>fetchRetrier\<close>: a loop around the global \<^verbatim>\<open>fetch\<close> with a
  per-attempt abort timer, a retry predicate on non-ok responses and a randomised
  exponential backoff (\<^verbatim>\<open>fullJitter\<close>) between attempts.

  The millisecond amounts and the value of \<^verbatim>\<open>Math.random()\<close> are JavaScript
  numbers, modelled as IEEE 754 doubles with their rounding, overflow to
  \<^verbatim>\<open>Infinity\<close> and \<^verbatim>\<open>NaN\<close> (section ``JavaScript numbers''). The numbers
  that count are modelled by whole numbers: \<open>int\<close> for the attempt budget
  \<^verbatim>\<open>retries\<close> (documented as the maximum number of attempts, so a whole number,
  which may still be zero or negative), \<open>nat\<close> for the loop counter and the HTTP
  status; a fractional \<^verbatim>\<open>retries\<close> is outside the model. Every awaited promise
  settles: a transport that ignores the abort signal and never answers is outside the
  model too.
\<close>

text \<open>
  A thrown value. The catch block of \<^verbatim>\<open>fetchRetrier\<close> inspects three things:
  \<^verbatim>\<open>err instanceof Error\<close>, \<^verbatim>\<open>err.name\<close> and
  \<^verbatim>\<open>err instanceof TypeError\<close>. \<open>NonError\<close> is a thrown value that is no
  instance of \<^verbatim>\<open>Error\<close>; \<open>PlainError\<close> is \<^verbatim>\<open>Error\<close> or a subclass
  other than \<^verbatim>\<open>TypeError\<close> (a \<^verbatim>\<open>DOMException\<close>, for instance);
  \<open>TypeError\<close> is \<^verbatim>\<open>TypeError\<close> or a subclass of it.
\<close>

datatype err_class = NonError | PlainError | TypeError

record js_error =
  err_class :: err_class
  err_name :: string
  err_message :: string

definition instanceof_Error :: "js_error \<Rightarrow> bool" where
  "instanceof_Error err = (err_class err \<noteq> NonError)"

definition instanceof_TypeError :: "js_error \<Rightarrow> bool" where
  "instanceof_TypeError err = (err_class err = TypeError)"

text \<open>\<^verbatim>\<open>new Error(msg)\<close>: the name is inherited from the prototype.\<close>

definition new_Error :: "string \<Rightarrow> js_error" where
  "new_Error msg = \<lparr>err_class = PlainError, err_name = ''Error'', err_message = msg\<rparr>"

text \<open>
  What an awaited promise or a call gives back: a value, or a thrown value
  (a rejected promise, once awaited, throws its reason).
\<close>

datatype 'a completion = Normal 'a | Abrupt js_error

text \<open>
  The part of a \<^verbatim>\<open>Response\<close> the module reads: \<^verbatim>\<open>res.ok\<close>,
  \<^verbatim>\<open>res.status\<close> and the outcome of awaiting \<^verbatim>\<open>res.text()\<close>.
\<close>

record response =
  ok :: bool
  status :: nat
  res_text :: "string completion"

section \<open>JavaScript numbers\<close>

text \<open>
  A JavaScript \<^verbatim>\<open>number\<close> is an IEEE 754 binary64 value: a finite double, one of
  the two infinities, or \<^verbatim>\<open>NaN\<close>. A finite double is kept as the real number it
  denotes; the two zeros are identified (\<^verbatim>\<open>===\<close> does not tell them apart, and the
  module never divides by one).
\<close>

datatype js_number = Finite (number_value: real) | Infinity | NegInfinity | NaN

text \<open>
  The binary exponent of a positive real: the \<open>e\<close> with \<open>2 ^ e \<le> x < 2 ^ (e + 1)\<close>,
  computed from the bit length of a whole number.
\<close>

function ilog2_nat :: "nat \<Rightarrow> nat" where
  "ilog2_nat n = (if n < 2 then 0 else Suc (ilog2_nat (n div 2)))"
  by pat_completeness auto
termination
  by (relation "measure id") auto

declare ilog2_nat.simps [simp del]

definition ilog2 :: "real \<Rightarrow> int" where
  "ilog2 x =
     (if 1 \<le> x then int (ilog2_nat (nat \<lfloor>x\<rfloor>))
      else - int (ilog2_nat (nat (\<lceil>1 / x\<rceil> - 1))) - 1)"

text \<open>The nearest whole number, a tie going to the even one.\<close>

definition round_half_even :: "real \<Rightarrow> int" where
  "round_half_even y =
     (let f = \<lfloor>y\<rfloor>; d = y - of_int f
      in if d < 1 / 2 then f else if 1 / 2 < d then f + 1 else if even f then f else f + 1)"

text \<open>
  The spacing of the doubles around \<open>x\<close> is \<open>2 ^ quantum x\<close>: 53 significant bits,
  and no exponent below that of the subnormal numbers.
\<close>

definition quantum :: "real \<Rightarrow> int" where
  "quantum x = max (ilog2 \<bar>x\<bar> - 52) (- 1074)"

definition overflow_threshold :: real where
  "overflow_threshold = 2 ^ 1024"

text \<open>
  The result of an arithmetic operation whose exact value is \<open>x\<close>, in the default
  rounding mode (to nearest, ties to even): \<open>x\<close> is rounded to a multiple of the
  spacing, and a rounded magnitude of \<open>2 ^ 1024\<close> or more overflows to an infinity.
\<close>

definition round_double :: "real \<Rightarrow> js_number" where
  "round_double x =
     (if x = 0 then Finite 0
      else
        let t = 2 powi quantum x;
            v = real_of_int (round_half_even (x / t)) * t
        in if overflow_threshold \<le> \<bar>v\<bar> then (if 0 < v then Infinity else NegInfinity)
           else Finite v)"

text \<open>The operator \<^verbatim>\<open>*\<close> on numbers.\<close>

fun js_times :: "js_number \<Rightarrow> js_number \<Rightarrow> js_number" where
  "js_times NaN y = NaN"
| "js_times x NaN = NaN"
| "js_times (Finite a) (Finite b) = round_double (a * b)"
| "js_times (Finite a) Infinity = (if a = 0 then NaN else if 0 < a then Infinity else NegInfinity)"
| "js_times (Finite a) NegInfinity =
     (if a = 0 then NaN else if 0 < a then NegInfinity else Infinity)"
| "js_times Infinity (Finite b) = (if b = 0 then NaN else if 0 < b then Infinity else NegInfinity)"
| "js_times NegInfinity (Finite b) =
     (if b = 0 then NaN else if 0 < b then NegInfinity else Infinity)"
| "js_times Infinity Infinity = Infinity"
| "js_times Infinity NegInfinity = NegInfinity"
| "js_times NegInfinity Infinity = NegInfinity"
| "js_times NegInfinity NegInfinity = Infinity"

text \<open>
  \<^verbatim>\<open>Math.pow(2, n)\<close> for a whole number \<open>n \<ge> 0\<close>, as the loop counter is: the
  power rounded (it is exact up to \<open>n = 1023\<close> and \<^verbatim>\<open>Infinity\<close> from 1024 on).
\<close>

definition Math_pow_2 :: "nat \<Rightarrow> js_number" where
  "Math_pow_2 n = round_double (2 ^ n)"

text \<open>\<^verbatim>\<open>Math.floor\<close>: the floor of a double is a double.\<close>

fun Math_floor :: "js_number \<Rightarrow> js_number" where
  "Math_floor (Finite x) = Finite (of_int \<lfloor>x\<rfloor>)"
| "Math_floor x = x"

section \<open>Options, collaborators and effects\<close>

text \<open>\<^verbatim>\<open>RequestOptions\<close>, field by field.\<close>

record request_options =
  headers :: "(string \<rightharpoonup> string) option"
  retries :: int
  timeoutMs :: js_number
  baseBackoffMs :: js_number
  shouldRetry :: "(response \<Rightarrow> string \<Rightarrow> bool completion) option"

text \<open>
  The collaborators outside the module. \<open>fetch\<close> is the global \<^verbatim>\<open>fetch\<close>:
  it gets the URL, the headers and the abort signal of the attempt (armed by
  \<^verbatim>\<open>setTimeout\<close> to fire after \<open>timeoutMs\<close>, which is all the model keeps of
  the signal), and its answer may differ from one invocation to the next, so it also
  gets the number of invocations made before. A timeout shows as \<open>fetch\<close> throwing an
  error named \<^verbatim>\<open>AbortError\<close>. \<open>Math_random\<close> is \<^verbatim>\<open>Math.random\<close>, given
  the number of draws made before.
\<close>

record env =
  fetch ::
    "string \<Rightarrow> (string \<rightharpoonup> string) option \<Rightarrow> js_number \<Rightarrow> nat \<Rightarrow> response completion"
  Math_random :: "nat \<Rightarrow> js_number"

text \<open>
  The observable effects of one call of \<^verbatim>\<open>fetchRetrier\<close>: how often
  \<^verbatim>\<open>fetch\<close> was invoked, the arguments of the \<^verbatim>\<open>wait\<close> calls in order,
  how often \<^verbatim>\<open>Math.random\<close> was drawn, and the arguments of the retry
  predicate's invocations in order.
\<close>

record world =
  calls :: nat
  delays :: "js_number list"
  draws :: nat
  pred_log :: "(response \<times> string) list"

definition world0 :: world where
  "world0 = \<lparr>calls = 0, delays = [], draws = 0, pred_log = []\<rparr>"

section \<open>The helpers\<close>

text \<open>
  \<^verbatim>\<open>[429, 500, 502, 503, 504].includes(res.status)\<close>
\<close>

definition defaultShouldRetry :: "response \<Rightarrow> bool" where
  "defaultShouldRetry res = List.member [429, 500, 502, 503, 504] (status res)"

text \<open>
  The destructuring default \<^verbatim>\<open>shouldRetry = defaultShouldRetry\<close>; the default
  ignores the body it is passed.
\<close>

definition shouldRetry_of :: "request_options \<Rightarrow> response \<Rightarrow> string \<Rightarrow> bool completion" where
  "shouldRetry_of options =
     (case shouldRetry options of
        None \<Rightarrow> (\<lambda>res body. Normal (defaultShouldRetry res))
      | Some f \<Rightarrow> f)"

text \<open>
  \<^verbatim>\<open>const cap = base * Math.pow(2, attempt); return Math.floor(Math.random() * cap);\<close>
  The third argument is the value \<^verbatim>\<open>Math.random()\<close> returned.
\<close>

definition fullJitter :: "js_number \<Rightarrow> nat \<Rightarrow> js_number \<Rightarrow> js_number" where
  "fullJitter base attempt r =
     (let cap = js_times base (Math_pow_2 attempt) in Math_floor (js_times r cap))"

text \<open>\<^verbatim>\<open>wait(ms)\<close>: the flow is suspended for \<open>ms\<close>; the model records it.\<close>

definition wait :: "js_number \<Rightarrow> world \<Rightarrow> world" where
  "wait ms w = w\<lparr>delays := delays w @ [ms]\<rparr>"

text \<open>
  \<^verbatim>\<open>await wait(fullJitter(baseBackoffMs, attempt))\<close>, which occurs three times
  in the loop body.
\<close>

definition backoff :: "env \<Rightarrow> request_options \<Rightarrow> nat \<Rightarrow> world \<Rightarrow> world" where
  "backoff E options attempt w =
     wait (fullJitter (baseBackoffMs options) attempt (Math_random E (draws w)))
          (w\<lparr>draws := Suc (draws w)\<rparr>)"

text \<open>
  The decimal text of a whole number, as a template literal prints
  \<^verbatim>\<open>${res.status}\<close>.
\<close>

function show_nat :: "nat \<Rightarrow> string" where
  "show_nat n =
     (if n < 10 then [''0123456789'' ! n]
      else show_nat (n div 10) @ [''0123456789'' ! (n mod 10)])"
  by pat_completeness auto
termination
  by (relation "measure id") auto

declare show_nat.simps [simp del]

section \<open>The attempt loop\<close>

text \<open>
  How the \<^verbatim>\<open>try\<close> block of one attempt ends: by \<^verbatim>\<open>return res\<close>, by a
  throw (of \<^verbatim>\<open>fetch\<close>, of \<^verbatim>\<open>res.text()\<close>, of the predicate, or one of
  the two \<^verbatim>\<open>throw new Error\<close> statements, all of which the \<^verbatim>\<open>catch\<close>
  of the same attempt receives), or by reaching its end after the backoff.
\<close>

datatype try_exit = TryReturn response | TryThrow js_error | TryEnd

text \<open>
  The four \<^verbatim>\<open>throw\<close> statements that leave \<^verbatim>\<open>fetchRetrier\<close>, by source
  line: 60 (abort, last attempt), 66 (\<^verbatim>\<open>TypeError\<close>, last attempt), 71 (any
  other caught value) and 75 (after the loop).
\<close>

datatype throw_site = L60 | L66 | L71 | L75

datatype catch_exit = CatchThrow throw_site js_error | CatchContinue

text \<open>
  How the call ends: the promise resolves with a response, or rejects with the value
  thrown at one of the four sites.
\<close>

datatype outcome = Returned response | Thrown throw_site js_error

text \<open>Lines 34 to 55. \<^verbatim>\<open>clearTimeout\<close> has no effect the model keeps.\<close>

definition try_block ::
  "env \<Rightarrow> string \<Rightarrow> request_options \<Rightarrow> nat \<Rightarrow> world \<Rightarrow> try_exit \<times> world" where
  "try_block E url options attempt w =
     (let w1 = w\<lparr>calls := Suc (calls w)\<rparr> in
      case fetch E url (headers options) (timeoutMs options) (calls w) of
        Abrupt err \<Rightarrow> (TryThrow err, w1)
      | Normal res \<Rightarrow>
          if ok res then (TryReturn res, w1)
          else
            (case res_text res of
               Abrupt err \<Rightarrow> (TryThrow err, w1)
             | Normal text \<Rightarrow>
                 (let w2 = w1\<lparr>pred_log := pred_log w1 @ [(res, text)]\<rparr> in
                  case shouldRetry_of options res text of
                    Abrupt err \<Rightarrow> (TryThrow err, w2)
                  | Normal isContinue \<Rightarrow>
                      if isContinue then
                        if int attempt = retries options
                        then (TryThrow (new_Error (''HTTP '' @ show_nat (status res))), w2)
                        else (TryEnd, backoff E options attempt w2)
                      else
                        (TryThrow
                           (new_Error (''Non-retriable HTTP error: '' @ show_nat (status res))),
                         w2))))"

text \<open>Lines 57 to 71.\<close>

definition catch_block ::
  "env \<Rightarrow> request_options \<Rightarrow> nat \<Rightarrow> js_error \<Rightarrow> world \<Rightarrow> catch_exit \<times> world" where
  "catch_block E options attempt err w =
     (if instanceof_Error err \<and> err_name err = ''AbortError'' then
        if int attempt = retries options then (CatchThrow L60 err, w)
        else (CatchContinue, backoff E options attempt w)
      else if instanceof_TypeError err then
        if int attempt = retries options then (CatchThrow L66 err, w)
        else (CatchContinue, backoff E options attempt w)
      else (CatchThrow L71 err, w))"

text \<open>
  The \<^verbatim>\<open>for\<close> loop from the value of \<open>attempt\<close> on, and line 75 after it.
\<close>

function attempt_loop ::
  "env \<Rightarrow> string \<Rightarrow> request_options \<Rightarrow> nat \<Rightarrow> world \<Rightarrow> outcome \<times> world" where
  "attempt_loop E url options attempt w =
     (if int attempt \<le> retries options then
        case try_block E url options attempt w of
          (TryReturn res, w') \<Rightarrow> (Returned res, w')
        | (TryEnd, w') \<Rightarrow> attempt_loop E url options (Suc attempt) w'
        | (TryThrow err, w') \<Rightarrow>
            (case catch_block E options attempt err w' of
               (CatchThrow site err', w'') \<Rightarrow> (Thrown site err', w'')
             | (CatchContinue, w'') \<Rightarrow> attempt_loop E url options (Suc attempt) w'')
      else (Thrown L75 (new_Error ''Unreachable''), w))"
  by pat_completeness auto
termination
  by (relation "measure (\<lambda>(E, url, options, attempt, w). nat (retries options + 1 - int attempt))")
     auto

declare attempt_loop.simps [simp del]

text \<open>
  \<^verbatim>\<open>fetchRetrier(url, options)\<close>: \<^verbatim>\<open>let attempt = 1\<close>, no effect yet.
\<close>

definition fetchRetrier :: "env \<Rightarrow> string \<Rightarrow> request_options \<Rightarrow> outcome \<times> world" where
  "fetchRetrier E url options = attempt_loop E url options 1 world0"

text \<open>
  The invariant of the predicate's log, for the statement about its invocations: every
  logged response is non-ok, was returned by an earlier invocation of the transport,
  and is logged with the text its \<^verbatim>\<open>text()\<close> resolved to.
\<close>

definition pred_log_ok :: "env \<Rightarrow> string \<Rightarrow> request_options \<Rightarrow> world \<Rightarrow> bool" where
  "pred_log_ok E url options w =
     (\<forall>(res, body) \<in> set (pred_log w).
        \<not> ok res \<and> res_text res = Normal body
        \<and> (\<exists>i<calls w. fetch E url (headers options) (timeoutMs options) i = Normal res))"

section \<open>Test doubles\<close>

text \<open>
  The doubles of the repository's test file. \<open>mock_response\<close> is its response
  literal \<^verbatim>\<open>{ ok, status, text: () => Promise.resolve(body) }\<close>, \<open>mock_fetch\<close> a
  \<^verbatim>\<open>jest.fn()\<close> with a chain of \<^verbatim>\<open>mockResolvedValueOnce\<close> or
  \<^verbatim>\<open>mockRejectedValueOnce\<close> answers followed by a permanent
  \<^verbatim>\<open>mockResolvedValue\<close> or \<^verbatim>\<open>mockRejectedValue\<close>, and \<open>baseOptions\<close> its
  \<^verbatim>\<open>baseOptions\<close>. The randomness source of \<open>mock_env\<close> always draws one half.
\<close>

definition mock_response :: "bool \<Rightarrow> nat \<Rightarrow> string \<Rightarrow> response" where
  "mock_response is_ok code body = \<lparr>ok = is_ok, status = code, res_text = Normal body\<rparr>"

definition mock_fetch ::
  "response completion list \<Rightarrow> response completion \<Rightarrow>
   string \<Rightarrow> (string \<rightharpoonup> string) option \<Rightarrow> js_number \<Rightarrow> nat \<Rightarrow> response completion" where
  "mock_fetch once always url hdrs signal i = (if i < length once then once ! i else always)"

definition mock_env :: "response completion list \<Rightarrow> response completion \<Rightarrow> env" where
  "mock_env once always = \<lparr>fetch = mock_fetch once always, Math_random = (\<lambda>i. Finite (1 / 2))\<rparr>"

definition baseOptions :: request_options where
  "baseOptions =
     \<lparr>headers = None, retries = 3, timeoutMs = Finite 5000, baseBackoffMs = Finite 10,
        shouldRetry = None\<rparr>"

text \<open>
  The two transient errors of the tests: the \<^verbatim>\<open>Error\<close> renamed
  \<^verbatim>\<open>AbortError\<close>, and \<^verbatim>\<open>new TypeError(msg)\<close>.
\<close>

definition abortError :: js_error where
  "abortError =
     \<lparr>err_class = PlainError, err_name = ''AbortError'',
        err_message = ''The operation was aborted''\<rparr>"

definition new_TypeError :: "string \<Rightarrow> js_error" where
  "new_TypeError msg = \<lparr>err_class = TypeError, err_name = ''TypeError'', err_message = msg\<rparr>"

section \<open>Rounding\<close>

text \<open>
  What the theorem on the delay needs of the arithmetic: the binary exponent is what
  its definition computes, rounding moves a value by at most half the spacing, a
  double scaled by a power of two is exact unless it overflows, and a double below
  one is at most \<open>1 - 2 ^ - 53\<close>.
\<close>

lemma ilog2_nat_bounds: "1 \<le> n \<Longrightarrow> 2 ^ ilog2_nat n \<le> n \<and> n < 2 * 2 ^ ilog2_nat n"
proof (induction n rule: ilog2_nat.induct)
  case (1 n)
  show ?case
  proof (cases "n < 2")
    case True
    with "1.prems" have "n = 1" by simp
    then show ?thesis by (simp add: ilog2_nat.simps)
  next
    case False
    then have h: "1 \<le> n div 2" by simp
    from "1.IH" [OF False h]
    have lo: "2 ^ ilog2_nat (n div 2) \<le> n div 2" and hi: "n div 2 < 2 * 2 ^ ilog2_nat (n div 2)"
      by simp_all
    have e: "ilog2_nat n = Suc (ilog2_nat (n div 2))"
      using False by (subst ilog2_nat.simps) simp
    from lo have "2 * 2 ^ ilog2_nat (n div 2) \<le> n" by linarith
    moreover from hi have "n < 2 * (2 * 2 ^ ilog2_nat (n div 2))" by linarith
    ultimately show ?thesis by (simp add: e)
  qed
qed

lemma ilog2_bounds:
  assumes "0 < x"
  shows "2 powi ilog2 x \<le> x \<and> x < 2 powi (ilog2 x + 1)"
proof (cases "1 \<le> x")
  case True
  define n where "n = nat \<lfloor>x\<rfloor>"
  define k where "k = ilog2_nat n"
  have n1: "1 \<le> n" using True by (simp add: n_def le_nat_iff le_floor_iff)
  have nx: "real n \<le> x" and xn: "x < real n + 1"
    using True by (simp_all add: n_def)
  from ilog2_nat_bounds [OF n1] have lo: "2 ^ k \<le> n" and hi: "n < 2 * 2 ^ k"
    by (simp_all add: k_def)
  from lo have "real (2 ^ k) \<le> real n" by (simp only: of_nat_le_iff)
  then have lo': "(2::real) ^ k \<le> real n" by simp
  from hi have "n + 1 \<le> 2 * 2 ^ k" by simp
  then have "real (n + 1) \<le> real (2 * 2 ^ k)" by (simp only: of_nat_le_iff)
  then have hi': "real n + 1 \<le> 2 * 2 ^ k" by simp
  have e: "ilog2 x = int k" using True by (simp add: ilog2_def k_def n_def)
  have p1: "(2::real) powi int k = 2 ^ k" by simp
  have p2: "(2::real) powi (int k + 1) = 2 * 2 ^ k" by (simp add: power_int_add)
  show ?thesis unfolding e p1 p2 using lo' hi' nx xn by linarith
next
  case False
  define y where "y = 1 / x"
  define n where "n = nat (\<lceil>y\<rceil> - 1)"
  define k where "k = ilog2_nat n"
  have y1: "1 < y" using False assms by (simp add: y_def)
  then have c2: "2 \<le> \<lceil>y\<rceil>" by (simp add: le_ceiling_iff) 
  have n1: "1 \<le> n" unfolding n_def using c2 by linarith
  have rn: "real n = of_int \<lceil>y\<rceil> - 1" unfolding n_def using c2 by simp
  have ny: "real n < y" and yn: "y \<le> real n + 1"
    unfolding rn by linarith+
  from ilog2_nat_bounds [OF n1] have lo: "2 ^ k \<le> n" and hi: "n < 2 * 2 ^ k"
    by (simp_all add: k_def)
  from lo have "real (2 ^ k) \<le> real n" by (simp only: of_nat_le_iff)
  then have lo': "(2::real) ^ k \<le> real n" by simp
  from hi have "n + 1 \<le> 2 * 2 ^ k" by simp
  then have "real (n + 1) \<le> real (2 * 2 ^ k)" by (simp only: of_nat_le_iff)
  then have hi': "real n + 1 \<le> 2 * 2 ^ k" by simp
  have e: "ilog2 x = - int k - 1" using False by (simp add: ilog2_def k_def n_def y_def)
  have x: "x = 1 / y" using assms by (simp add: y_def)
  have "2 ^ k < y" using lo' ny by linarith
  then have a: "x < 1 / 2 ^ k" unfolding x using y1
    by (simp add: divide_simps mult.commute)
  have "y \<le> 2 * 2 ^ k" using hi' yn by linarith
  then have b: "1 / (2 * 2 ^ k) \<le> x" unfolding x using y1
    by (simp add: divide_simps mult.commute)
  have p1: "(2::real) powi (- int k - 1) = 1 / (2 * 2 ^ k)"
    by (simp add: power_int_diff power_int_minus divide_simps)
  have p2: "(2::real) powi (- int k - 1 + 1) = 1 / 2 ^ k"
    by (simp add: power_int_minus divide_simps)
  show ?thesis unfolding e p1 p2 using a b by simp
qed

lemma ilog2_unique:
  assumes "0 < x" and "2 powi i \<le> x" and "x < 2 powi (i + 1)"
  shows "ilog2 x = i"
proof -
  from ilog2_bounds [OF assms(1)] have lo: "2 powi ilog2 x \<le> x" and hi: "x < 2 powi (ilog2 x + 1)"
    by simp_all
  have "(2::real) powi ilog2 x < 2 powi (i + 1)" using lo assms(3) by linarith
  then have "ilog2 x < i + 1"
    by (metis linorder_not_le power_int_increasing one_le_numeral linorder_not_less)
  moreover have "(2::real) powi i < 2 powi (ilog2 x + 1)" using hi assms(2) by linarith
  then have "i < ilog2 x + 1"
    by (metis linorder_not_le power_int_increasing one_le_numeral linorder_not_less)
  ultimately show ?thesis by simp
qed

lemma round_half_even_error: "\<bar>of_int (round_half_even y) - y\<bar> \<le> 1 / 2"
  unfolding round_half_even_def Let_def by (auto split: if_splits)

lemma round_half_even_of_int: "round_half_even (of_int n) = n"
  by (simp add: round_half_even_def)

lemma round_half_even_nonneg: "0 \<le> y \<Longrightarrow> 0 \<le> round_half_even y"
  by (auto simp add: round_half_even_def Let_def)

lemma round_double_unfold:
  "x \<noteq> 0 \<Longrightarrow>
   round_double x =
     (if overflow_threshold
           \<le> \<bar>real_of_int (round_half_even (x / 2 powi quantum x)) * 2 powi quantum x\<bar>
      then (if 0 < real_of_int (round_half_even (x / 2 powi quantum x)) * 2 powi quantum x
            then Infinity else NegInfinity)
      else Finite (real_of_int (round_half_even (x / 2 powi quantum x)) * 2 powi quantum x))"
  by (simp add: round_double_def Let_def)

lemma round_double_exact:
  assumes "x = of_int q * 2 powi quantum x" and "\<bar>x\<bar> < overflow_threshold"
  shows "round_double x = Finite x"
proof (cases "x = 0")
  case True
  then show ?thesis by (simp add: round_double_def)
next
  case False
  have "x / 2 powi quantum x = of_int q"
    using assms(1) by (metis nonzero_mult_div_cancel_right power_int_eq_0_iff zero_neq_numeral)
  then have "real_of_int (round_half_even (x / 2 powi quantum x)) * 2 powi quantum x = x"
    using assms(1) by (simp add: round_half_even_of_int)
  then show ?thesis using assms(2) False by (simp add: round_double_unfold)
qed

lemma round_double_FiniteD:
  assumes "round_double x = Finite v"
  shows "v = real_of_int (round_half_even (x / 2 powi quantum x)) * 2 powi quantum x
         \<and> \<bar>v\<bar> < overflow_threshold"
proof (cases "x = 0")
  case True
  have "0 < overflow_threshold" by (simp add: overflow_threshold_def)
  with True assms show ?thesis
    by (simp add: round_double_def round_half_even_of_int [of 0, simplified])
next
  case False
  from assms show ?thesis
    unfolding round_double_unfold [OF False] by (auto split: if_splits)
qed

lemma quantum_scale:
  assumes "0 < x"
  shows "ilog2 (x * 2 ^ a) = ilog2 x + int a"
proof (rule ilog2_unique)
  from ilog2_bounds [OF assms] have lo: "2 powi ilog2 x \<le> x" and hi: "x < 2 powi (ilog2 x + 1)"
    by simp_all
  show "0 < x * 2 ^ a" using assms by simp
  have "2 powi (ilog2 x + int a) = 2 powi ilog2 x * (2::real) ^ a"
    by (simp add: power_int_add)
  then show "2 powi (ilog2 x + int a) \<le> x * 2 ^ a" using lo by simp
  have "2 powi (ilog2 x + int a + 1) = 2 powi (ilog2 x + 1) * (2::real) ^ a"
    by (simp add: power_int_add)
  then show "x * 2 ^ a < 2 powi (ilog2 x + int a + 1)" using hi by simp
qed

lemma round_double_scale:
  assumes "round_double b = Finite b" and "0 < b" and "b * 2 ^ a < overflow_threshold"
  shows "round_double (b * 2 ^ a) = Finite (b * 2 ^ a)"
proof -
  define q where "q = round_half_even (b / 2 powi quantum b)"
  from round_double_FiniteD [OF assms(1)] have b: "b = of_int q * 2 powi quantum b"
    by (simp add: q_def)
  have i: "ilog2 \<bar>b * 2 ^ a\<bar> = ilog2 \<bar>b\<bar> + int a"
    using assms(2) by (simp add: quantum_scale abs_mult)
  have le: "quantum (b * 2 ^ a) \<le> quantum b + int a"
    unfolding quantum_def i by simp
  define d where "d = nat (quantum b + int a - quantum (b * 2 ^ a))"
  have d: "quantum b + int a = quantum (b * 2 ^ a) + int d"
    using le by (simp add: d_def)
  have "b * 2 ^ a = of_int q * 2 powi (quantum b + int a)"
    using b by (simp add: power_int_add) 
  also have "\<dots> = of_int q * (2 powi quantum (b * 2 ^ a) * 2 ^ d)"
    unfolding d by (simp add: power_int_add)
  also have "\<dots> = of_int (q * 2 ^ d) * 2 powi quantum (b * 2 ^ a)"
    by simp
  finally have "b * 2 ^ a = of_int (q * 2 ^ d) * 2 powi quantum (b * 2 ^ a)" .
  moreover have "\<bar>b * 2 ^ a\<bar> < overflow_threshold" using assms(2,3) by (simp add: abs_mult)
  ultimately show ?thesis by (rule round_double_exact)
qed

lemma Math_pow_2_exact:
  assumes "n \<le> 1023"
  shows "Math_pow_2 n = Finite (2 ^ n)"
proof -
  have i: "ilog2 \<bar>2 ^ n\<bar> = int n"
    by (rule ilog2_unique) (simp_all add: power_int_add)
  have g: "quantum (2 ^ n) = int n - 52" unfolding quantum_def i by simp
  have rep: "(2::real) ^ n = of_int (2 ^ 52) * 2 powi quantum (2 ^ n)"
    unfolding g by (simp add: power_int_diff)
  have "(2::real) ^ n < 2 ^ 1024"
    using assms by (intro power_strict_increasing) simp_all
  moreover have "\<bar>(2::real) ^ n\<bar> = 2 ^ n" by simp
  ultimately have "\<bar>(2::real) ^ n\<bar> < overflow_threshold"
    by (simp only: overflow_threshold_def)
  then show ?thesis unfolding Math_pow_2_def by (rule round_double_exact [OF rep])
qed

lemma double_below_one:
  assumes "round_double r = Finite r" and "0 < r" and "r < 1"
  shows "r \<le> 1 - 1 / 2 ^ 53"
proof -
  from ilog2_bounds [OF assms(2)]
  have lo: "2 powi ilog2 r \<le> r" and hi: "r < 2 powi (ilog2 r + 1)" by simp_all
  have "(2::real) powi ilog2 r < 2 powi 0" using lo assms(3) by simp
  have neg: "ilog2 r < 0"
  proof (rule ccontr)
    assume "\<not> ilog2 r < 0"
    then have "(2::real) powi 0 \<le> 2 powi ilog2 r" by (intro power_int_increasing) simp_all
    with \<open>(2::real) powi ilog2 r < 2 powi 0\<close> show False by simp
  qed
  show ?thesis
  proof (cases "ilog2 r = - 1")
    case True
    have g: "quantum r = - 53" using assms(2) by (simp add: quantum_def True)
    define q where "q = round_half_even (r / 2 powi quantum r)"
    from round_double_FiniteD [OF assms(1)] have "r = of_int q * 2 powi (- 53)"
      by (simp add: q_def g)
    then have r: "r = of_int q / 2 ^ 53" by (simp add: power_int_minus divide_simps)
    with assms(3) have "real_of_int q < 2 ^ 53" by (simp add: divide_simps)
    then have "real_of_int q < real_of_int (2 ^ 53)" by simp
    then have "q < 2 ^ 53" by (simp only: of_int_less_iff)
    then have "q \<le> 2 ^ 53 - 1" by simp
    then have "real_of_int q \<le> real_of_int (2 ^ 53 - 1)" by (simp only: of_int_le_iff)
    then have "real_of_int q \<le> 2 ^ 53 - 1" by simp
    then show ?thesis unfolding r by (simp add: divide_simps)
  next
    case False
    with neg have "ilog2 r + 1 \<le> - 1" by simp
    then have "(2::real) powi (ilog2 r + 1) \<le> 2 powi (- 1)"
      by (intro power_int_increasing) simp_all
    with hi have "r < 1 / 2" by simp
    then show ?thesis by simp
  qed
qed

lemma round_double_below:
  assumes "0 < x" and "x \<le> (1 - 1 / 2 ^ 53) * C" and "C < overflow_threshold"
  shows "\<exists>v. round_double x = Finite v \<and> 0 \<le> v \<and> (v < C \<or> v < 1)"
proof -
  define g where "g = quantum x"
  define t where "t = (2::real) powi g"
  define q where "q = round_half_even (x / t)"
  define v where "v = real_of_int q * t"
  define eps where "eps = (1::real) / 2 ^ 53"
  have t: "0 < t" by (simp add: t_def)
  have eps: "0 < eps" "eps < 1" by (simp_all add: eps_def)
  have x: "x \<le> (1 - eps) * C" using assms(2) by (simp add: eps_def)
  have C: "0 < C"
  proof (rule ccontr)
    assume "\<not> 0 < C"
    then have "(1 - eps) * C \<le> 0" using eps by (simp add: mult_nonneg_nonpos)
    with x assms(1) show False by simp
  qed
  have "\<bar>real_of_int q - x / t\<bar> \<le> 1 / 2"
    unfolding q_def by (rule round_half_even_error)
  then have "\<bar>real_of_int q - x / t\<bar> * t \<le> 1 / 2 * t"
    using t by (intro mult_right_mono) simp_all
  moreover have "(real_of_int q - x / t) * t = v - x"
    using t by (simp add: v_def left_diff_distrib)
  then have "\<bar>v - x\<bar> = \<bar>real_of_int q - x / t\<bar> * t"
    using t by (metis abs_mult abs_of_pos)
  ultimately have err: "\<bar>v - x\<bar> \<le> t / 2" by simp
  have "0 \<le> x / t" using assms(1) t by simp
  then have "0 \<le> q" unfolding q_def by (rule round_half_even_nonneg)
  then have v0: "0 \<le> v" using t by (simp add: v_def)
  from ilog2_bounds [OF assms(1)]
  have lo: "2 powi ilog2 x \<le> x" and hi: "x < 2 powi (ilog2 x + 1)" by simp_all
  have small: "v < C \<or> v < 1"
  proof (cases "- 1074 \<le> ilog2 x - 52")
    case True
    then have "g = ilog2 x - 52" using assms(1) by (simp add: g_def quantum_def)
    then have "t = 2 powi ilog2 x / 2 ^ 52" by (simp add: t_def power_int_diff)
    then have "t / 2 = 2 powi ilog2 x * eps"
      by (simp add: eps_def)
    also have "\<dots> \<le> x * eps" using lo eps by (intro mult_right_mono) simp_all
    finally have "v \<le> x + x * eps" using err by linarith
    also have "\<dots> = x * (1 + eps)" by (simp add: algebra_simps)
    also have "\<dots> \<le> (1 - eps) * C * (1 + eps)"
      using x eps by (intro mult_right_mono) simp_all
    also have "\<dots> = C - eps * eps * C" by (simp add: algebra_simps)
    also have "\<dots> < C" using eps C by simp
    finally show ?thesis by simp
  next
    case False
    then have g: "g = - 1074" using assms(1) by (simp add: g_def quantum_def)
    from False have "ilog2 x + 1 \<le> - 1022" by simp
    then have "(2::real) powi (ilog2 x + 1) \<le> 2 powi (- 1022)"
      by (intro power_int_increasing) simp_all
    also have "\<dots> \<le> 2 powi (- 2)" by (intro power_int_increasing) simp_all
    finally have x4: "x < 1 / 4" using hi by simp
    have "t \<le> 2 powi (- 2)" unfolding t_def g by (intro power_int_increasing) simp_all
    then have "t \<le> 1 / 4" by simp
    with err x4 have "v < 1" by linarith
    then show ?thesis by simp
  qed
  have "(1::real) < 2 ^ 1024" by (rule one_less_power) simp_all
  then have "1 < overflow_threshold" by (simp only: overflow_threshold_def)
  with small assms(3) have "v < overflow_threshold" by linarith
  with v0 have "\<not> overflow_threshold \<le> \<bar>v\<bar>" by simp
  moreover have "x \<noteq> 0" using assms(1) by simp
  ultimately have "round_double x = Finite v"
    by (simp add: round_double_unfold v_def q_def t_def g_def)
  with v0 small show ?thesis by blast
qed

lemma Math_pow_2_overflow:
  assumes "1024 \<le> n"
  shows "Math_pow_2 n = Infinity"
proof -
  have i: "ilog2 \<bar>2 ^ n\<bar> = int n"
    by (rule ilog2_unique) (simp_all add: power_int_add)
  have g: "quantum (2 ^ n) = int n - 52" using assms unfolding quantum_def i by simp
  have "(2::real) ^ n / 2 powi quantum (2 ^ n) = real_of_int (2 ^ 52)"
    unfolding g by (simp add: power_int_diff)
  then have "round_half_even ((2::real) ^ n / 2 powi quantum (2 ^ n)) = 2 ^ 52"
    by (simp only: round_half_even_of_int)
  then have v: "real_of_int (round_half_even ((2::real) ^ n / 2 powi quantum (2 ^ n)))
                  * 2 powi quantum (2 ^ n) = 2 ^ n"
    unfolding g by (simp add: power_int_diff)
  have "(2::real) ^ 1024 \<le> 2 ^ n" using assms by (intro power_increasing) simp_all
  then have big: "overflow_threshold \<le> \<bar>(2::real) ^ n\<bar>"
    by (simp only: overflow_threshold_def abs_of_pos [OF zero_less_power [OF zero_less_numeral]])
  have pos: "(0::real) < 2 ^ n" by simp
  have nz: "(2::real) ^ n \<noteq> 0" by simp
  show ?thesis
    unfolding Math_pow_2_def round_double_unfold [OF nz] v using big pos by simp
qed

text \<open>From attempt 1024 on the cap is infinite or \<^verbatim>\<open>NaN\<close>, and so is the delay.\<close>

lemma fullJitter_from_1024:
  assumes "1024 \<le> attempt"
  shows "fullJitter (Finite b) attempt (Finite r) =
         (if b = 0 \<or> r = 0 then NaN else if (0 < b) = (0 < r) then Infinity else NegInfinity)"
  by (simp add: fullJitter_def Math_pow_2_overflow [OF assms])

lemmas number_simps =
  fullJitter_def Math_pow_2_def round_double_def quantum_def ilog2_def ilog2_nat.simps
  round_half_even_def overflow_threshold_def Let_def

section \<open>Steps of the loop\<close>

lemma new_Error_not_abort:
  "\<not> (instanceof_Error (new_Error msg) \<and> err_name (new_Error msg) = ''AbortError'')"
  by (simp add: new_Error_def)

lemma new_Error_not_TypeError: "\<not> instanceof_TypeError (new_Error msg)"
  by (simp add: new_Error_def instanceof_TypeError_def)

lemma calls_backoff: "calls (backoff E options attempt w) = calls w"
  by (simp add: backoff_def wait_def)

lemma pred_log_backoff: "pred_log (backoff E options attempt w) = pred_log w"
  by (simp add: backoff_def wait_def)

lemma delays_backoff:
  "delays (backoff E options attempt w) =
     delays w @ [fullJitter (baseBackoffMs options) attempt (Math_random E (draws w))]"
  by (simp add: backoff_def wait_def)

lemma draws_backoff: "draws (backoff E options attempt w) = Suc (draws w)"
  by (simp add: backoff_def wait_def)

lemma attempt_loop_after:
  "\<not> int attempt \<le> retries options \<Longrightarrow>
   attempt_loop E url options attempt w = (Thrown L75 (new_Error ''Unreachable''), w)"
  by (subst attempt_loop.simps) simp

lemma attempt_loop_return:
  "int attempt \<le> retries options \<Longrightarrow> try_block E url options attempt w = (TryReturn res, w') \<Longrightarrow>
   attempt_loop E url options attempt w = (Returned res, w')"
  by (subst attempt_loop.simps) simp

lemma attempt_loop_end:
  "int attempt \<le> retries options \<Longrightarrow> try_block E url options attempt w = (TryEnd, w') \<Longrightarrow>
   attempt_loop E url options attempt w = attempt_loop E url options (Suc attempt) w'"
  by (subst attempt_loop.simps) simp

lemma attempt_loop_rethrow:
  "int attempt \<le> retries options \<Longrightarrow> try_block E url options attempt w = (TryThrow err, w') \<Longrightarrow>
   catch_block E options attempt err w' = (CatchThrow site err', w'') \<Longrightarrow>
   attempt_loop E url options attempt w = (Thrown site err', w'')"
  by (subst attempt_loop.simps) simp

lemma attempt_loop_continue:
  "int attempt \<le> retries options \<Longrightarrow> try_block E url options attempt w = (TryThrow err, w') \<Longrightarrow>
   catch_block E options attempt err w' = (CatchContinue, w'') \<Longrightarrow>
   attempt_loop E url options attempt w = attempt_loop E url options (Suc attempt) w''"
  by (subst attempt_loop.simps) simp

text \<open>What the try block does on each answer of the transport.\<close>

lemma try_block_fetch_throws:
  "fetch E url (headers options) (timeoutMs options) (calls w) = Abrupt err \<Longrightarrow>
   try_block E url options attempt w = (TryThrow err, w\<lparr>calls := Suc (calls w)\<rparr>)"
  by (simp add: try_block_def)

lemma try_block_ok:
  "fetch E url (headers options) (timeoutMs options) (calls w) = Normal res \<Longrightarrow> ok res \<Longrightarrow>
   try_block E url options attempt w = (TryReturn res, w\<lparr>calls := Suc (calls w)\<rparr>)"
  by (simp add: try_block_def)

lemma try_block_text_throws:
  "fetch E url (headers options) (timeoutMs options) (calls w) = Normal res \<Longrightarrow> \<not> ok res \<Longrightarrow>
   res_text res = Abrupt err \<Longrightarrow>
   try_block E url options attempt w = (TryThrow err, w\<lparr>calls := Suc (calls w)\<rparr>)"
  by (simp add: try_block_def)

lemma try_block_pred_throws:
  "fetch E url (headers options) (timeoutMs options) (calls w) = Normal res \<Longrightarrow> \<not> ok res \<Longrightarrow>
   res_text res = Normal body \<Longrightarrow> shouldRetry_of options res body = Abrupt err \<Longrightarrow>
   try_block E url options attempt w =
     (TryThrow err, w\<lparr>calls := Suc (calls w), pred_log := pred_log w @ [(res, body)]\<rparr>)"
  by (simp add: try_block_def)

lemma try_block_retriable:
  "fetch E url (headers options) (timeoutMs options) (calls w) = Normal res \<Longrightarrow> \<not> ok res \<Longrightarrow>
   res_text res = Normal body \<Longrightarrow> shouldRetry_of options res body = Normal True \<Longrightarrow>
   try_block E url options attempt w =
     (if int attempt = retries options
      then (TryThrow (new_Error (''HTTP '' @ show_nat (status res))),
            w\<lparr>calls := Suc (calls w), pred_log := pred_log w @ [(res, body)]\<rparr>)
      else (TryEnd,
            backoff E options attempt
              (w\<lparr>calls := Suc (calls w), pred_log := pred_log w @ [(res, body)]\<rparr>)))"
  by (simp add: try_block_def)

lemma try_block_non_retriable:
  "fetch E url (headers options) (timeoutMs options) (calls w) = Normal res \<Longrightarrow> \<not> ok res \<Longrightarrow>
   res_text res = Normal body \<Longrightarrow> shouldRetry_of options res body = Normal False \<Longrightarrow>
   try_block E url options attempt w =
     (TryThrow (new_Error (''Non-retriable HTTP error: '' @ show_nat (status res))),
      w\<lparr>calls := Suc (calls w), pred_log := pred_log w @ [(res, body)]\<rparr>)"
  by (simp add: try_block_def)

lemma catch_block_other:
  "\<not> (instanceof_Error err \<and> err_name err = ''AbortError'') \<Longrightarrow> \<not> instanceof_TypeError err \<Longrightarrow>
   catch_block E options attempt err w = (CatchThrow L71 err, w)"
  by (simp add: catch_block_def)

lemma catch_block_new_Error:
  "catch_block E options attempt (new_Error msg) w = (CatchThrow L71 (new_Error msg), w)"
  by (rule catch_block_other [OF new_Error_not_abort new_Error_not_TypeError])

lemma catch_block_transient:
  "(instanceof_Error err \<and> err_name err = ''AbortError'') \<or> instanceof_TypeError err \<Longrightarrow>
   catch_block E options attempt err w =
     (if int attempt = retries options
      then (CatchThrow (if instanceof_Error err \<and> err_name err = ''AbortError'' then L60 else L66)
              err, w)
      else (CatchContinue, backoff E options attempt w))"
  by (auto simp add: catch_block_def)

text \<open>The two composite steps on a response the predicate accepts or rejects.\<close>

lemma attempt_loop_retriable_more:
  assumes "int attempt < retries options"
    and "fetch E url (headers options) (timeoutMs options) (calls w) = Normal res" and "\<not> ok res"
    and "res_text res = Normal body" and "shouldRetry_of options res body = Normal True"
  shows "attempt_loop E url options attempt w =
         attempt_loop E url options (Suc attempt)
           (backoff E options attempt
              (w\<lparr>calls := Suc (calls w), pred_log := pred_log w @ [(res, body)]\<rparr>))"
proof -
  from assms(1) have le: "int attempt \<le> retries options" and ne: "int attempt \<noteq> retries options"
    by simp_all
  show ?thesis
    by (rule attempt_loop_end [OF le]) (simp add: try_block_retriable [OF assms(2-5)] ne)
qed

lemma attempt_loop_retriable_last:
  assumes "int attempt = retries options"
    and "fetch E url (headers options) (timeoutMs options) (calls w) = Normal res" and "\<not> ok res"
    and "res_text res = Normal body" and "shouldRetry_of options res body = Normal True"
  shows "attempt_loop E url options attempt w =
         (Thrown L71 (new_Error (''HTTP '' @ show_nat (status res))),
          w\<lparr>calls := Suc (calls w), pred_log := pred_log w @ [(res, body)]\<rparr>)"
proof -
  from assms(1) have le: "int attempt \<le> retries options" by simp
  show ?thesis
    by (rule attempt_loop_rethrow [OF le _ catch_block_new_Error])
       (simp add: try_block_retriable [OF assms(2-5)] assms(1))
qed

lemmas run_simps =
  fetchRetrier_def attempt_loop.simps try_block_def catch_block_def backoff_def wait_def
  number_simps mock_env_def mock_fetch_def mock_response_def baseOptions_def world0_def
  shouldRetry_of_def defaultShouldRetry_def new_Error_def instanceof_Error_def
  instanceof_TypeError_def show_nat.simps

text \<open>What the loop does with a value the try block threw.\<close>

lemma attempt_loop_caught:
  assumes "int attempt \<le> retries options"
    and "try_block E url options attempt w = (TryThrow err, w')"
  shows "attempt_loop E url options attempt w =
         (if (instanceof_Error err \<and> err_name err = ''AbortError'') \<or> instanceof_TypeError err
          then if int attempt = retries options
               then (Thrown (if instanceof_Error err \<and> err_name err = ''AbortError''
                             then L60 else L66) err, w')
               else attempt_loop E url options (Suc attempt) (backoff E options attempt w')
          else (Thrown L71 err, w'))"
proof (cases "(instanceof_Error err \<and> err_name err = ''AbortError'') \<or> instanceof_TypeError err")
  case True
  note c = catch_block_transient [OF True, of E options attempt w']
  show ?thesis
  proof (cases "int attempt = retries options")
    case last: True
    have "catch_block E options attempt err w' =
          (CatchThrow (if instanceof_Error err \<and> err_name err = ''AbortError'' then L60 else L66)
             err, w')"
      using c last by simp
    from attempt_loop_rethrow [OF assms this] show ?thesis using True last by simp
  next
    case more: False
    have "catch_block E options attempt err w' = (CatchContinue, backoff E options attempt w')"
      using c more by simp
    from attempt_loop_continue [OF assms this] show ?thesis using True more by simp
  qed
next
  case False
  then have "catch_block E options attempt err w' = (CatchThrow L71 err, w')"
    by (simp add: catch_block_other)
  note r = attempt_loop_rethrow [OF assms this]
  show ?thesis by (simp only: False if_False r)
qed

text \<open>The try block ends at its end only when attempts remain; so does the catch block.\<close>

lemma try_block_end_more:
  "try_block E url options attempt w = (TryEnd, w') \<Longrightarrow> int attempt \<noteq> retries options"
  by (auto simp add: try_block_def Let_def split: completion.splits if_splits)

lemma catch_block_continue_more:
  "catch_block E options attempt err w = (CatchContinue, w') \<Longrightarrow> int attempt \<noteq> retries options"
  by (auto simp add: catch_block_def split: if_splits)

lemma catch_block_site:
  "catch_block E options attempt err w = (CatchThrow site err', w') \<Longrightarrow> site \<noteq> L75"
  by (auto simp add: catch_block_def split: if_splits)

lemma attempt_loop_not_after:
  "int attempt \<le> retries options \<Longrightarrow> fst (attempt_loop E url options attempt w) \<noteq> Thrown L75 e"
proof (induction E url options attempt w rule: attempt_loop.induct)
  case (1 E url options attempt w)
  obtain x w' where t: "try_block E url options attempt w = (x, w')"
    by (cases "try_block E url options attempt w")
  show ?case
  proof (cases x)
    case (TryReturn res)
    with t "1.prems" show ?thesis by (simp add: attempt_loop_return)
  next
    case TryEnd
    with t have "int attempt \<noteq> retries options" by (simp add: try_block_end_more)
    with "1.prems" have "int (Suc attempt) \<le> retries options" by simp
    from "1.IH"(2) [OF "1.prems" t [symmetric] TryEnd this] show ?thesis
      using t TryEnd "1.prems" by (simp add: attempt_loop_end)
  next
    case (TryThrow err)
    obtain y w'' where c: "catch_block E options attempt err w' = (y, w'')"
      by (cases "catch_block E options attempt err w'")
    show ?thesis
    proof (cases y)
      case (CatchThrow site err')
      with c have "site \<noteq> L75" by (simp add: catch_block_site)
      moreover have "attempt_loop E url options attempt w = (Thrown site err', w'')"
        using attempt_loop_rethrow [OF "1.prems"] t TryThrow c CatchThrow by simp
      ultimately show ?thesis by simp
    next
      case CatchContinue
      with c have "int attempt \<noteq> retries options" by (simp add: catch_block_continue_more)
      with "1.prems" have "int (Suc attempt) \<le> retries options" by simp
      from "1.IH"(1) [OF "1.prems" t [symmetric] TryThrow c [symmetric] CatchContinue this]
      show ?thesis
        using attempt_loop_continue [OF "1.prems"] t TryThrow c CatchContinue by simp
    qed
  qed
qed

text \<open>The invariant of the predicate's log is kept by every step.\<close>

lemma pred_log_ok_backoff:
  "pred_log_ok E url options (backoff E options attempt w) = pred_log_ok E url options w"
  by (simp add: pred_log_ok_def backoff_def wait_def)

lemma pred_log_ok_call:
  "pred_log_ok E url options w \<Longrightarrow> pred_log_ok E url options (w\<lparr>calls := Suc (calls w)\<rparr>)"
  by (fastforce simp add: pred_log_ok_def less_Suc_eq)

lemma pred_log_ok_call_log:
  assumes "pred_log_ok E url options w"
    and "fetch E url (headers options) (timeoutMs options) (calls w) = Normal res"
    and "\<not> ok res" and "res_text res = Normal body"
  shows "pred_log_ok E url options
           (w\<lparr>calls := Suc (calls w), pred_log := pred_log w @ [(res, body)]\<rparr>)"
  using assms by (fastforce simp add: pred_log_ok_def less_Suc_eq)

lemma try_block_pred_log_ok:
  assumes "pred_log_ok E url options w" and "try_block E url options attempt w = (x, w')"
  shows "pred_log_ok E url options w'"
proof (cases "fetch E url (headers options) (timeoutMs options) (calls w)")
  case (Abrupt err)
  from assms(2) try_block_fetch_throws [OF Abrupt, of attempt]
  show ?thesis using pred_log_ok_call [OF assms(1)] by simp
next
  case (Normal res)
  show ?thesis
  proof (cases "ok res")
    case True
    from assms(2) try_block_ok [OF Normal True, of attempt]
    show ?thesis using pred_log_ok_call [OF assms(1)] by simp
  next
    case False
    show ?thesis
    proof (cases "res_text res")
      case (Abrupt err)
      from assms(2) try_block_text_throws [OF Normal False Abrupt, of attempt]
      show ?thesis using pred_log_ok_call [OF assms(1)] by simp
    next
      case body: (Normal body)
      note logged = pred_log_ok_call_log [OF assms(1) Normal False body]
      show ?thesis
      proof (cases "shouldRetry_of options res body")
        case (Abrupt err)
        from assms(2) try_block_pred_throws [OF Normal False body Abrupt, of attempt]
        show ?thesis using logged by simp
      next
        case isContinue: (Normal isContinue)
        show ?thesis
        proof (cases isContinue)
          case True
          with isContinue have "shouldRetry_of options res body = Normal True" by simp
          from assms(2) try_block_retriable [OF Normal False body this, of attempt]
          show ?thesis using logged by (auto simp add: pred_log_ok_backoff split: if_splits)
        next
          case False
          with isContinue have "shouldRetry_of options res body = Normal False" by simp
          from assms(2) try_block_non_retriable [OF Normal \<open>\<not> ok res\<close> body this, of attempt]
          show ?thesis using logged by simp
        qed
      qed
    qed
  qed
qed

lemma catch_block_pred_log_ok:
  "pred_log_ok E url options w \<Longrightarrow> catch_block E options attempt err w = (y, w') \<Longrightarrow>
   pred_log_ok E url options w'"
  by (auto simp add: catch_block_def pred_log_ok_backoff split: if_splits)

lemma attempt_loop_pred_log_ok:
  "pred_log_ok E url options w \<Longrightarrow>
   pred_log_ok E url options (snd (attempt_loop E url options attempt w))"
proof (induction E url options attempt w rule: attempt_loop.induct)
  case (1 E url options attempt w)
  show ?case
  proof (cases "int attempt \<le> retries options")
    case False
    with "1.prems" show ?thesis by (simp add: attempt_loop_after)
  next
    case le: True
    obtain x w' where t: "try_block E url options attempt w = (x, w')"
      by (cases "try_block E url options attempt w")
    note w' = try_block_pred_log_ok [OF "1.prems" t]
    show ?thesis
    proof (cases x)
      case (TryReturn res)
      with t le w' show ?thesis by (simp add: attempt_loop_return)
    next
      case TryEnd
      from "1.IH"(2) [OF le t [symmetric] TryEnd w'] show ?thesis
        using t TryEnd le by (simp add: attempt_loop_end)
    next
      case (TryThrow err)
      obtain y w'' where c: "catch_block E options attempt err w' = (y, w'')"
        by (cases "catch_block E options attempt err w'")
      note w'' = catch_block_pred_log_ok [OF w' c]
      show ?thesis
      proof (cases y)
        case (CatchThrow site err')
        have "attempt_loop E url options attempt w = (Thrown site err', w'')"
          using attempt_loop_rethrow [OF le] t TryThrow c CatchThrow by simp
        with w'' show ?thesis by simp
      next
        case CatchContinue
        from "1.IH"(1) [OF le t [symmetric] TryThrow c [symmetric] CatchContinue w'']
        show ?thesis
          using attempt_loop_continue [OF le] t TryThrow c CatchContinue by simp
      qed
    qed
  qed
qed

text \<open>
  A run in which every remaining attempt gets a non-ok response that the predicate
  accepts: \<open>k\<close> is the number of attempts after the current one.
\<close>

lemma attempt_loop_all_retriable:
  assumes "int attempt + int k = retries options"
    and "\<forall>i\<le>k. fetch E url (headers options) (timeoutMs options) (calls w + i)
                   = Normal (rs (calls w + i))
              \<and> \<not> ok (rs (calls w + i))
              \<and> res_text (rs (calls w + i)) = Normal (bs (calls w + i))
              \<and> shouldRetry_of options (rs (calls w + i)) (bs (calls w + i)) = Normal True"
  shows "fst (attempt_loop E url options attempt w) =
           Thrown L71 (new_Error (''HTTP '' @ show_nat (status (rs (calls w + k)))))
       \<and> calls (snd (attempt_loop E url options attempt w)) = calls w + Suc k
       \<and> length (delays (snd (attempt_loop E url options attempt w))) = length (delays w) + k"
  using assms
proof (induction k arbitrary: attempt w)
  case 0
  then have last: "int attempt = retries options" by simp
  from "0.prems"(2) have
    "fetch E url (headers options) (timeoutMs options) (calls w) = Normal (rs (calls w))"
    "\<not> ok (rs (calls w))" "res_text (rs (calls w)) = Normal (bs (calls w))"
    "shouldRetry_of options (rs (calls w)) (bs (calls w)) = Normal True"
    by simp_all
  from attempt_loop_retriable_last [OF last this] show ?case by simp
next
  case (Suc k)
  then have more: "int attempt < retries options" by simp
  from Suc.prems(2) have
    "fetch E url (headers options) (timeoutMs options) (calls w + 0) = Normal (rs (calls w + 0))
     \<and> \<not> ok (rs (calls w + 0)) \<and> res_text (rs (calls w + 0)) = Normal (bs (calls w + 0))
     \<and> shouldRetry_of options (rs (calls w + 0)) (bs (calls w + 0)) = Normal True"
    by blast
  then have now:
    "fetch E url (headers options) (timeoutMs options) (calls w) = Normal (rs (calls w))"
    "\<not> ok (rs (calls w))" "res_text (rs (calls w)) = Normal (bs (calls w))"
    "shouldRetry_of options (rs (calls w)) (bs (calls w)) = Normal True"
    by simp_all
  define w1 where
    "w1 = backoff E options attempt
            (w\<lparr>calls := Suc (calls w), pred_log := pred_log w @ [(rs (calls w), bs (calls w))]\<rparr>)"
  have step: "attempt_loop E url options attempt w = attempt_loop E url options (Suc attempt) w1"
    unfolding w1_def by (rule attempt_loop_retriable_more [OF more now])
  have c1: "calls w1 = Suc (calls w)" and d1: "length (delays w1) = Suc (length (delays w))"
    by (simp_all add: w1_def calls_backoff delays_backoff)
  have budget: "int (Suc attempt) + int k = retries options" using Suc.prems(1) by simp
  have rest: "\<forall>i\<le>k. fetch E url (headers options) (timeoutMs options) (calls w1 + i)
                   = Normal (rs (calls w1 + i))
              \<and> \<not> ok (rs (calls w1 + i))
              \<and> res_text (rs (calls w1 + i)) = Normal (bs (calls w1 + i))
              \<and> shouldRetry_of options (rs (calls w1 + i)) (bs (calls w1 + i)) = Normal True"
  proof (intro allI impI)
    fix i assume "i \<le> k"
    then have "Suc i \<le> Suc k" by simp
    with Suc.prems(2) show "fetch E url (headers options) (timeoutMs options) (calls w1 + i)
                   = Normal (rs (calls w1 + i))
              \<and> \<not> ok (rs (calls w1 + i))
              \<and> res_text (rs (calls w1 + i)) = Normal (bs (calls w1 + i))
              \<and> shouldRetry_of options (rs (calls w1 + i)) (bs (calls w1 + i)) = Normal True"
      unfolding c1 by (metis add_Suc_shift)
  qed
  from Suc.IH [OF budget rest] show ?case
    unfolding step by (simp add: c1 d1)
qed

section \<open>The properties of the specification\<close>

text \<open>
  C7, as amended. Let the base be a double \<open>b \<ge> 0\<close>, the attempt number be from 1
  to 1023, the cap \<open>b * 2 ^ attempt\<close> be below \<open>2 ^ 1024\<close> (so that neither
  \<^verbatim>\<open>Math.pow(2, attempt)\<close> nor the cap overflows), and the randomness source give
  a double \<open>r\<close> in \<open>[0, 1)\<close>. Then \<open>fullJitter\<close> returns a whole number \<open>n \<ge> 0\<close>;
  for a positive base \<open>n\<close> is below \<open>b * 2 ^ attempt\<close>; for base \<open>0\<close> that interval
  is empty and \<open>n\<close> is \<open>0\<close>. A real \<open>x\<close> is a double when rounding leaves it as it
  is, \<open>round_double x = Finite x\<close>.
\<close>

theorem fullJitter_range:
  assumes "round_double b = Finite b" and "0 \<le> b" and "1 \<le> attempt" and "attempt \<le> 1023"
    and "b * 2 ^ attempt < 2 ^ 1024"
    and "round_double r = Finite r" and "0 \<le> r" and "r < 1"
  shows "\<exists>n. fullJitter (Finite b) attempt (Finite r) = Finite (of_int n) \<and> 0 \<le> n
           \<and> (0 < b \<longrightarrow> real_of_int n < b * 2 ^ attempt) \<and> (b = 0 \<longrightarrow> n = 0)"
proof -
  define C where "C = b * 2 ^ attempt"
  have lim: "C < overflow_threshold" using assms(5) by (simp only: C_def overflow_threshold_def)
  have pow: "Math_pow_2 attempt = Finite (2 ^ attempt)"
    using assms(4) by (rule Math_pow_2_exact)
  have cap: "js_times (Finite b) (Math_pow_2 attempt) = Finite C"
  proof (cases "b = 0")
    case True
    then show ?thesis by (simp add: pow C_def round_double_def)
  next
    case False
    with assms(2) have "0 < b" by simp
    from round_double_scale [OF assms(1) this] lim show ?thesis by (simp add: pow C_def)
  qed
  have run: "fullJitter (Finite b) attempt (Finite r) = Math_floor (round_double (r * C))"
    by (simp add: fullJitter_def cap)
  show ?thesis
  proof (cases "r * C = 0")
    case True
    then have "fullJitter (Finite b) attempt (Finite r) = Finite (of_int 0)"
      by (simp add: run round_double_def)
    moreover have "0 < b \<longrightarrow> 0 < C" by (simp add: C_def)
    ultimately show ?thesis unfolding C_def by (intro exI [of _ 0]) simp
  next
    case False
    then have "r \<noteq> 0" and "b \<noteq> 0" by (simp_all add: C_def)
    with assms(2,7) have r0: "0 < r" and b0: "0 < b" by simp_all
    then have C0: "0 < C" by (simp add: C_def)
    with r0 have x0: "0 < r * C" by simp
    from double_below_one [OF assms(6) r0 assms(8)] C0
    have "r * C \<le> (1 - 1 / 2 ^ 53) * C" by (intro mult_right_mono) simp_all
    from round_double_below [OF x0 this lim]
    obtain v where v: "round_double (r * C) = Finite v" "0 \<le> v" "v < C \<or> v < 1"
      by blast
    have fl: "fullJitter (Finite b) attempt (Finite r) = Finite (of_int \<lfloor>v\<rfloor>)"
      by (simp add: run v(1))
    have n0: "0 \<le> \<lfloor>v\<rfloor>" using v(2) by simp
    have "real_of_int \<lfloor>v\<rfloor> < C"
    proof (cases "v < 1")
      case True
      with v(2) have "\<lfloor>v\<rfloor> = 0" by (simp add: floor_eq_iff)
      with C0 show ?thesis by simp
    next
      case False
      with v(3) have "v < C" by simp
      moreover have "real_of_int \<lfloor>v\<rfloor> \<le> v" by (rule of_int_floor_le)
      ultimately show ?thesis by linarith
    qed
    with fl n0 b0 show ?thesis unfolding C_def by (intro exI [of _ "\<lfloor>v\<rfloor>"]) simp
  qed
qed

theorem fullJitter_range_witness:
  "fullJitter (Finite 10) 3 (Finite (1 / 2)) = Finite 40 \<and> (40::real) < 10 * 2 ^ 3"
proof -
  have h: "round_double 10 = Finite 10" "(0::real) \<le> 10" "(1::nat) \<le> 3" "(3::nat) \<le> 1023"
    "(10::real) * 2 ^ 3 < 2 ^ 1024" "round_double (1 / 2) = Finite (1 / 2)"
    "(0::real) \<le> 1 / 2" "(1 / 2 :: real) < 1"
    by (simp_all add: number_simps)
  have v: "fullJitter (Finite 10) 3 (Finite (1 / 2)) = Finite 40"
    by (simp add: number_simps)
  from fullJitter_range [OF h] obtain n where
    "fullJitter (Finite 10) 3 (Finite (1 / 2)) = Finite (real_of_int n)"
    and "real_of_int n < 10 * 2 ^ 3"
    by auto
  with v show ?thesis by simp
qed

text \<open>
  C7 as the specification states it fails at three inputs. For base \<open>0\<close> the result
  \<open>0\<close> is not below the bound \<open>0 * 2 ^ 1\<close>. At attempt 1024 the power
  \<^verbatim>\<open>Math.pow(2, 1024)\<close> is \<^verbatim>\<open>Infinity\<close>, and so is the result for base 5 and
  the random value one half. For base \<open>2 ^ 1023\<close> the cap overflows to
  \<^verbatim>\<open>Infinity\<close> at attempt 1 already, and so does the result.
\<close>

theorem fullJitter_range_counterexample:
  "\<not> (is_Finite (fullJitter (Finite 0) 1 (Finite 0))
       \<and> real_of_int \<lfloor>number_value (fullJitter (Finite 0) 1 (Finite 0))\<rfloor>
           = number_value (fullJitter (Finite 0) 1 (Finite 0))
       \<and> 0 \<le> number_value (fullJitter (Finite 0) 1 (Finite 0))
       \<and> number_value (fullJitter (Finite 0) 1 (Finite 0)) < 0 * 2 ^ 1)
   \<and> \<not> (is_Finite (fullJitter (Finite 5) 1024 (Finite (1 / 2)))
       \<and> real_of_int \<lfloor>number_value (fullJitter (Finite 5) 1024 (Finite (1 / 2)))\<rfloor>
           = number_value (fullJitter (Finite 5) 1024 (Finite (1 / 2)))
       \<and> 0 \<le> number_value (fullJitter (Finite 5) 1024 (Finite (1 / 2)))
       \<and> number_value (fullJitter (Finite 5) 1024 (Finite (1 / 2))) < 5 * 2 ^ 1024)
   \<and> \<not> (is_Finite (fullJitter (Finite (2 ^ 1023)) 1 (Finite (1 / 2)))
       \<and> real_of_int \<lfloor>number_value (fullJitter (Finite (2 ^ 1023)) 1 (Finite (1 / 2)))\<rfloor>
           = number_value (fullJitter (Finite (2 ^ 1023)) 1 (Finite (1 / 2)))
       \<and> 0 \<le> number_value (fullJitter (Finite (2 ^ 1023)) 1 (Finite (1 / 2)))
       \<and> number_value (fullJitter (Finite (2 ^ 1023)) 1 (Finite (1 / 2))) < 2 ^ 1023 * 2 ^ 1)"
proof -
  have "fullJitter (Finite 0) 1 (Finite 0) = Finite 0"
    by (simp add: number_simps)
  moreover have "fullJitter (Finite 5) 1024 (Finite (1 / 2)) = Infinity"
    by (simp add: fullJitter_from_1024)
  moreover have "fullJitter (Finite (2 ^ 1023)) 1 (Finite (1 / 2)) = Infinity"
  proof -
    have "Math_pow_2 1 = Finite 2"
      using Math_pow_2_exact [of 1] by simp
    moreover have "round_double (2 ^ 1023 * 2) = Math_pow_2 1024"
      by (simp add: Math_pow_2_def)
    ultimately have "js_times (Finite (2 ^ 1023)) (Math_pow_2 1) = Infinity"
      by (simp add: Math_pow_2_overflow)
    then show ?thesis by (simp add: fullJitter_def)
  qed
  ultimately show ?thesis by simp
qed

text \<open>
  C5. If the first invocation of the transport returns an ok response (and the
  configuration allows a first attempt), \<open>fetchRetrier\<close> returns that response after
  exactly one invocation, with no delay and no use of the predicate.
\<close>

theorem ok_first_attempt:
  assumes "1 \<le> retries options"
    and "fetch E url (headers options) (timeoutMs options) 0 = Normal res"
    and "ok res"
  shows "fetchRetrier E url options =
         (Returned res, \<lparr>calls = 1, delays = [], draws = 0, pred_log = []\<rparr>)"
proof -
  have le: "int 1 \<le> retries options" using assms(1) by simp
  have f: "fetch E url (headers options) (timeoutMs options) (calls world0) = Normal res"
    using assms(2) by (simp add: world0_def)
  have "attempt_loop E url options 1 world0 =
        (Returned res, world0\<lparr>calls := Suc (calls world0)\<rparr>)"
    by (rule attempt_loop_return [OF le try_block_ok [OF f assms(3)]])
  then show ?thesis by (simp add: fetchRetrier_def world0_def)
qed

theorem ok_first_attempt_witness:
  "fetchRetrier (mock_env [] (Normal (mock_response True 200 ''ok''))) ''https://example.com''
     baseOptions =
   (Returned (mock_response True 200 ''ok''),
    \<lparr>calls = 1, delays = [], draws = 0, pred_log = []\<rparr>)"
proof -
  let ?E = "mock_env [] (Normal (mock_response True 200 ''ok''))"
  have h1: "1 \<le> retries baseOptions" by (simp add: baseOptions_def)
  have h2: "fetch ?E ''https://example.com'' (headers baseOptions) (timeoutMs baseOptions) 0 =
            Normal (mock_response True 200 ''ok'')"
    by (simp add: mock_env_def mock_fetch_def)
  have h3: "ok (mock_response True 200 ''ok'')" by (simp add: mock_response_def)
  show ?thesis by (rule ok_first_attempt [OF h1 h2 h3])
qed

text \<open>
  C3. If the first invocation of the transport throws a value that is neither an
  \<^verbatim>\<open>Error\<close> named \<^verbatim>\<open>AbortError\<close> nor a \<^verbatim>\<open>TypeError\<close>,
  \<open>fetchRetrier\<close> rethrows that same value at line 71 after exactly one invocation,
  with no delay, whatever the attempt budget (at least one).
\<close>

theorem other_error_first_attempt:
  assumes "1 \<le> retries options"
    and "fetch E url (headers options) (timeoutMs options) 0 = Abrupt err"
    and "\<not> (instanceof_Error err \<and> err_name err = ''AbortError'')"
    and "\<not> instanceof_TypeError err"
  shows "fetchRetrier E url options =
         (Thrown L71 err, \<lparr>calls = 1, delays = [], draws = 0, pred_log = []\<rparr>)"
proof -
  have le: "int 1 \<le> retries options" using assms(1) by simp
  have f: "fetch E url (headers options) (timeoutMs options) (calls world0) = Abrupt err"
    using assms(2) by (simp add: world0_def)
  have "attempt_loop E url options 1 world0 = (Thrown L71 err, world0\<lparr>calls := Suc (calls world0)\<rparr>)"
    by (rule attempt_loop_rethrow [OF le try_block_fetch_throws [OF f]
          catch_block_other [OF assms(3,4)]])
  then show ?thesis by (simp add: fetchRetrier_def world0_def)
qed

theorem other_error_first_attempt_witness:
  "fetchRetrier (mock_env [] (Abrupt (new_Error ''Something else''))) ''https://example.com''
     baseOptions =
   (Thrown L71 (new_Error ''Something else''),
    \<lparr>calls = 1, delays = [], draws = 0, pred_log = []\<rparr>)"
proof -
  let ?E = "mock_env [] (Abrupt (new_Error ''Something else''))"
  have h1: "1 \<le> retries baseOptions" by (simp add: baseOptions_def)
  have h2: "fetch ?E ''https://example.com'' (headers baseOptions) (timeoutMs baseOptions) 0 =
            Abrupt (new_Error ''Something else'')"
    by (simp add: mock_env_def mock_fetch_def)
  have h3: "\<not> (instanceof_Error (new_Error ''Something else'')
              \<and> err_name (new_Error ''Something else'') = ''AbortError'')"
    by (simp add: new_Error_def)
  have h4: "\<not> instanceof_TypeError (new_Error ''Something else'')"
    by (simp add: new_Error_def instanceof_TypeError_def)
  show ?thesis by (rule other_error_first_attempt [OF h1 h2 h3 h4])
qed

text \<open>
  C4. At any attempt within the budget, if the transport returns a non-ok response
  on which the predicate returns false, the call ends there: one more invocation of
  the transport, no delay, and the error
  \<^verbatim>\<open>Non-retriable HTTP error: <status>\<close> thrown, however many attempts remain.
\<close>

theorem non_retriable_fails_at_once:
  assumes "int attempt \<le> retries options"
    and "fetch E url (headers options) (timeoutMs options) (calls w) = Normal res"
    and "\<not> ok res"
    and "res_text res = Normal body"
    and "shouldRetry_of options res body = Normal False"
  shows "attempt_loop E url options attempt w =
         (Thrown L71 (new_Error (''Non-retriable HTTP error: '' @ show_nat (status res))),
          w\<lparr>calls := Suc (calls w), pred_log := pred_log w @ [(res, body)]\<rparr>)"
  by (rule attempt_loop_rethrow [OF assms(1) try_block_non_retriable [OF assms(2-5)]
        catch_block_new_Error])

theorem non_retriable_fails_at_once_witness:
  "fetchRetrier (mock_env [] (Normal (mock_response False 400 ''bad request'')))
     ''https://example.com'' baseOptions =
   (Thrown L71 (new_Error ''Non-retriable HTTP error: 400''),
    \<lparr>calls = 1, delays = [], draws = 0,
       pred_log = [(mock_response False 400 ''bad request'', ''bad request'')]\<rparr>)"
proof -
  let ?E = "mock_env [] (Normal (mock_response False 400 ''bad request''))"
  let ?r = "mock_response False 400 ''bad request''"
  have h1: "int 1 \<le> retries baseOptions" by (simp add: baseOptions_def)
  have h2: "fetch ?E ''https://example.com'' (headers baseOptions) (timeoutMs baseOptions)
              (calls world0) = Normal ?r"
    by (simp add: mock_env_def mock_fetch_def)
  have h3: "\<not> ok ?r" and h4: "res_text ?r = Normal ''bad request''"
    by (simp_all add: mock_response_def)
  have h5: "shouldRetry_of baseOptions ?r ''bad request'' = Normal False"
    by (simp add: shouldRetry_of_def baseOptions_def defaultShouldRetry_def mock_response_def)
  have s: "show_nat (status ?r) = ''400''"
    by (simp add: mock_response_def show_nat.simps)
  show ?thesis
    using non_retriable_fails_at_once [OF h1 h2 h3 h4 h5]
    by (simp add: fetchRetrier_def s world0_def)
qed

text \<open>
  C2. At any attempt within the budget, if the transport throws an \<^verbatim>\<open>Error\<close>
  named \<^verbatim>\<open>AbortError\<close> or a \<^verbatim>\<open>TypeError\<close>: while attempts remain the
  loop performs one backoff and goes on with the next attempt; at the last attempt it
  rethrows that same value (line 60 for the abort, line 66 for the \<^verbatim>\<open>TypeError\<close>).
\<close>

theorem transient_transport_error:
  assumes "int attempt \<le> retries options"
    and "fetch E url (headers options) (timeoutMs options) (calls w) = Abrupt err"
    and "(instanceof_Error err \<and> err_name err = ''AbortError'') \<or> instanceof_TypeError err"
  shows "attempt_loop E url options attempt w =
         (if int attempt = retries options
          then (Thrown (if instanceof_Error err \<and> err_name err = ''AbortError'' then L60 else L66)
                  err, w\<lparr>calls := Suc (calls w)\<rparr>)
          else attempt_loop E url options (Suc attempt)
                 (backoff E options attempt (w\<lparr>calls := Suc (calls w)\<rparr>)))"
  using attempt_loop_caught [OF assms(1) try_block_fetch_throws [OF assms(2)]] assms(3)
  by simp

theorem transient_transport_error_witness:
  "fetchRetrier (mock_env [] (Abrupt abortError)) ''https://example.com''
     (baseOptions\<lparr>retries := 2\<rparr>) =
   (Thrown L60 abortError, \<lparr>calls = 2, delays = [Finite 10], draws = 1, pred_log = []\<rparr>)"
proof -
  let ?E = "mock_env [] (Abrupt abortError)"
  let ?o = "baseOptions\<lparr>retries := 2\<rparr>"
  let ?w1 = "backoff ?E ?o 1 (world0\<lparr>calls := Suc (calls world0)\<rparr>)"
  have ab: "(instanceof_Error abortError \<and> err_name abortError = ''AbortError'')
            \<or> instanceof_TypeError abortError"
    by (simp add: abortError_def instanceof_Error_def)
  have f: "fetch ?E ''https://example.com'' (headers ?o) (timeoutMs ?o) (calls w) = Abrupt abortError"
    for w by (simp add: mock_env_def mock_fetch_def)
  have a1: "int 1 \<le> retries ?o" and a2: "int (Suc 1) \<le> retries ?o" by simp_all
  have "attempt_loop ?E ''https://example.com'' ?o 1 world0 =
        attempt_loop ?E ''https://example.com'' ?o (Suc 1) ?w1"
    using transient_transport_error [OF a1 f ab] by simp
  also have "\<dots> = (Thrown L60 abortError, ?w1\<lparr>calls := Suc (calls ?w1)\<rparr>)"
    using transient_transport_error [OF a2 f ab] ab
    by (simp add: abortError_def instanceof_Error_def)
  finally show ?thesis
    by (simp add: fetchRetrier_def backoff_def wait_def number_simps mock_env_def world0_def
          baseOptions_def)
qed

text \<open>
  C10. At any attempt within the budget on a non-ok response, a value thrown by
  \<^verbatim>\<open>res.text()\<close> or by the retry predicate reaches the same catch block as a
  transport error: an \<^verbatim>\<open>Error\<close> named \<^verbatim>\<open>AbortError\<close> or a
  \<^verbatim>\<open>TypeError\<close> leads to one backoff and the next attempt while attempts remain
  (and is rethrown at the last attempt); any other value is rethrown at once at line 71.
  \<open>w'\<close> is the state when the value is thrown: the transport invoked once more, and the
  predicate's invocation logged if it was the predicate that threw.
\<close>

theorem body_or_predicate_error:
  assumes "int attempt \<le> retries options"
    and "fetch E url (headers options) (timeoutMs options) (calls w) = Normal res"
    and "\<not> ok res"
    and "res_text res = Abrupt err \<and> w' = w\<lparr>calls := Suc (calls w)\<rparr>
         \<or> (\<exists>body. res_text res = Normal body \<and> shouldRetry_of options res body = Abrupt err
               \<and> w' = w\<lparr>calls := Suc (calls w), pred_log := pred_log w @ [(res, body)]\<rparr>)"
  shows "attempt_loop E url options attempt w =
         (if (instanceof_Error err \<and> err_name err = ''AbortError'') \<or> instanceof_TypeError err
          then if int attempt = retries options
               then (Thrown (if instanceof_Error err \<and> err_name err = ''AbortError''
                             then L60 else L66) err, w')
               else attempt_loop E url options (Suc attempt) (backoff E options attempt w')
          else (Thrown L71 err, w'))"
proof -
  have "try_block E url options attempt w = (TryThrow err, w')"
    using assms(4)
  proof (elim disjE conjE exE)
    assume "res_text res = Abrupt err" and "w' = w\<lparr>calls := Suc (calls w)\<rparr>"
    then show ?thesis by (simp add: try_block_text_throws [OF assms(2,3)])
  next
    fix body
    assume "res_text res = Normal body" and "shouldRetry_of options res body = Abrupt err"
      and "w' = w\<lparr>calls := Suc (calls w), pred_log := pred_log w @ [(res, body)]\<rparr>"
    then show ?thesis by (simp add: try_block_pred_throws [OF assms(2,3)])
  qed
  then show ?thesis by (rule attempt_loop_caught [OF assms(1)])
qed

theorem body_or_predicate_error_witness:
  "fetchRetrier
     (mock_env [Normal \<lparr>ok = False, status = 503, res_text = Abrupt (new_TypeError ''terminated'')\<rparr>]
        (Normal (mock_response True 200 ''ok'')))
     ''https://example.com'' baseOptions =
   (Returned (mock_response True 200 ''ok''),
    \<lparr>calls = 2, delays = [Finite 10], draws = 1, pred_log = []\<rparr>)"
proof -
  let ?r = "\<lparr>ok = False, status = 503, res_text = Abrupt (new_TypeError ''terminated'')\<rparr>"
  let ?E = "mock_env [Normal ?r] (Normal (mock_response True 200 ''ok''))"
  let ?w' = "world0\<lparr>calls := Suc (calls world0)\<rparr>"
  have h1: "int 1 \<le> retries baseOptions" by (simp add: baseOptions_def)
  have h2: "fetch ?E ''https://example.com'' (headers baseOptions) (timeoutMs baseOptions)
              (calls world0) = Normal ?r"
    by (simp add: mock_env_def mock_fetch_def world0_def)
  have h3: "\<not> ok ?r" by simp
  have h4: "res_text ?r = Abrupt (new_TypeError ''terminated'') \<and> ?w' = world0\<lparr>calls := Suc (calls world0)\<rparr>
         \<or> (\<exists>body. res_text ?r = Normal body \<and> shouldRetry_of baseOptions ?r body = Abrupt (new_TypeError ''terminated'')
               \<and> ?w' = world0\<lparr>calls := Suc (calls world0), pred_log := pred_log world0 @ [(?r, body)]\<rparr>)"
    by simp
  have t: "instanceof_TypeError (new_TypeError ''terminated'')"
    and m: "int 1 \<noteq> retries baseOptions"
    by (simp_all add: new_TypeError_def instanceof_TypeError_def baseOptions_def)
  have "attempt_loop ?E ''https://example.com'' baseOptions 1 world0 =
        attempt_loop ?E ''https://example.com'' baseOptions (Suc 1) (backoff ?E baseOptions 1 ?w')"
    using body_or_predicate_error [OF h1 h2 h3 h4] t m by simp
  also have "\<dots> = (Returned (mock_response True 200 ''ok''),
                    \<lparr>calls = 2, delays = [Finite 10], draws = 1, pred_log = []\<rparr>)"
    by (simp add: run_simps)
  finally show ?thesis by (simp add: fetchRetrier_def)
qed

text \<open>
  C9. With an attempt budget of at least one, \<open>fetchRetrier\<close> never ends at line 75,
  the \<^verbatim>\<open>throw new Error('Unreachable')\<close> after the loop, whatever the transport,
  the bodies and the predicate do; with a budget below one it ends there, with that
  error, without having invoked the transport.
\<close>

theorem unreachable_only_without_attempts:
  "(1 \<le> retries options \<longrightarrow> (\<forall>e. fst (fetchRetrier E url options) \<noteq> Thrown L75 e))
   \<and> (retries options < 1 \<longrightarrow>
        fetchRetrier E url options =
          (Thrown L75 (new_Error ''Unreachable''),
           \<lparr>calls = 0, delays = [], draws = 0, pred_log = []\<rparr>))"
proof (intro conjI impI allI)
  fix e
  assume "1 \<le> retries options"
  then have "int 1 \<le> retries options" by simp
  then show "fst (fetchRetrier E url options) \<noteq> Thrown L75 e"
    unfolding fetchRetrier_def by (rule attempt_loop_not_after)
next
  assume "retries options < 1"
  then have "\<not> int 1 \<le> retries options" by simp
  then show "fetchRetrier E url options =
          (Thrown L75 (new_Error ''Unreachable''),
           \<lparr>calls = 0, delays = [], draws = 0, pred_log = []\<rparr>)"
    by (simp add: fetchRetrier_def attempt_loop_after world0_def)
qed

theorem unreachable_only_without_attempts_witness:
  "fst (fetchRetrier (mock_env [] (Abrupt (new_Error ''Unreachable''))) ''https://example.com''
          baseOptions) \<noteq> Thrown L75 (new_Error ''Unreachable'')
   \<and> fetchRetrier (mock_env [] (Abrupt (new_Error ''Unreachable''))) ''https://example.com''
        (baseOptions\<lparr>retries := 0\<rparr>) =
       (Thrown L75 (new_Error ''Unreachable''),
        \<lparr>calls = 0, delays = [], draws = 0, pred_log = []\<rparr>)"
proof -
  let ?E = "mock_env [] (Abrupt (new_Error ''Unreachable''))"
  have h1: "1 \<le> retries baseOptions" by (simp add: baseOptions_def)
  have h2: "retries (baseOptions\<lparr>retries := 0\<rparr>) < 1" by simp
  show ?thesis
    using unreachable_only_without_attempts [of baseOptions ?E "''https://example.com''"]
      unreachable_only_without_attempts [of "baseOptions\<lparr>retries := 0\<rparr>" ?E "''https://example.com''"]
      h1 h2
    by simp
qed

text \<open>
  C8. In every run of \<open>fetchRetrier\<close>, each invocation of the retry predicate was made
  on a response whose \<^verbatim>\<open>ok\<close> flag is false, which an invocation of the transport
  had returned, together with the text that awaiting its \<^verbatim>\<open>text()\<close> gave.
\<close>

theorem predicate_only_on_read_non_ok:
  "\<forall>(res, body) \<in> set (pred_log (snd (fetchRetrier E url options))).
     \<not> ok res \<and> res_text res = Normal body
     \<and> (\<exists>i<calls (snd (fetchRetrier E url options)).
           fetch E url (headers options) (timeoutMs options) i = Normal res)"
proof -
  have "pred_log_ok E url options world0"
    by (simp add: pred_log_ok_def world0_def)
  then have "pred_log_ok E url options (snd (fetchRetrier E url options))"
    unfolding fetchRetrier_def by (rule attempt_loop_pred_log_ok)
  then show ?thesis by (simp add: pred_log_ok_def)
qed

theorem predicate_only_on_read_non_ok_witness:
  "(mock_response False 418 ''teapot'', ''teapot'') \<in>
     set (pred_log (snd (fetchRetrier
       (mock_env [Normal (mock_response False 418 ''teapot'')] (Normal (mock_response True 200 [])))
       ''https://example.com''
       (baseOptions\<lparr>shouldRetry := Some (\<lambda>res body. Normal (status res = 418))\<rparr>))))
   \<and> \<not> ok (mock_response False 418 ''teapot'')
   \<and> res_text (mock_response False 418 ''teapot'') = Normal ''teapot''"
proof -
  let ?E = "mock_env [Normal (mock_response False 418 ''teapot'')] (Normal (mock_response True 200 []))"
  let ?o = "baseOptions\<lparr>shouldRetry := Some (\<lambda>res body. Normal (status res = 418))\<rparr>"
  have run: "fetchRetrier ?E ''https://example.com'' ?o =
        (Returned (mock_response True 200 []),
         \<lparr>calls = 2, delays = [Finite 10], draws = 1,
            pred_log = [(mock_response False 418 ''teapot'', ''teapot'')]\<rparr>)"
    by (simp add: run_simps)
  then have m: "(mock_response False 418 ''teapot'', ''teapot'') \<in>
      set (pred_log (snd (fetchRetrier ?E ''https://example.com'' ?o)))"
    by simp
  from predicate_only_on_read_non_ok [of ?E "''https://example.com''" ?o, rule_format, OF m]
  show ?thesis using m by simp
qed

text \<open>
  C1. With an attempt budget \<open>N \<ge> 1\<close> and a transport whose first \<open>N\<close> answers are
  non-ok responses that the predicate accepts, \<open>fetchRetrier\<close> invokes the transport
  exactly \<open>N\<close> times, with \<open>N - 1\<close> delays between, and fails with the error
  \<^verbatim>\<open>HTTP <status>\<close> of the last response.
\<close>

theorem retries_exhausted:
  assumes "retries options = int N" and "1 \<le> N"
    and "\<forall>i<N. fetch E url (headers options) (timeoutMs options) i = Normal (rs i)
              \<and> \<not> ok (rs i) \<and> res_text (rs i) = Normal (bs i)
              \<and> shouldRetry_of options (rs i) (bs i) = Normal True"
  shows "fst (fetchRetrier E url options) =
           Thrown L71 (new_Error (''HTTP '' @ show_nat (status (rs (N - 1)))))
       \<and> calls (snd (fetchRetrier E url options)) = N
       \<and> length (delays (snd (fetchRetrier E url options))) = N - 1"
proof -
  have budget: "int 1 + int (N - 1) = retries options" using assms(1,2) by simp
  have all: "\<forall>i\<le>N - 1. fetch E url (headers options) (timeoutMs options) (calls world0 + i)
                   = Normal (rs (calls world0 + i))
              \<and> \<not> ok (rs (calls world0 + i))
              \<and> res_text (rs (calls world0 + i)) = Normal (bs (calls world0 + i))
              \<and> shouldRetry_of options (rs (calls world0 + i)) (bs (calls world0 + i))
                  = Normal True"
    using assms(2,3) by (simp add: world0_def)
  from attempt_loop_all_retriable [OF budget all] show ?thesis
    using assms(2) by (simp add: fetchRetrier_def world0_def)
qed

theorem retries_exhausted_witness:
  "fst (fetchRetrier (mock_env [] (Normal (mock_response False 503 ''unavailable'')))
          ''https://example.com'' (baseOptions\<lparr>retries := 2\<rparr>)) =
     Thrown L71 (new_Error ''HTTP 503'')
   \<and> calls (snd (fetchRetrier (mock_env [] (Normal (mock_response False 503 ''unavailable'')))
          ''https://example.com'' (baseOptions\<lparr>retries := 2\<rparr>))) = 2
   \<and> length (delays (snd (fetchRetrier
          (mock_env [] (Normal (mock_response False 503 ''unavailable'')))
          ''https://example.com'' (baseOptions\<lparr>retries := 2\<rparr>)))) = 1"
proof -
  let ?r = "mock_response False 503 ''unavailable''"
  let ?E = "mock_env [] (Normal ?r)"
  let ?o = "baseOptions\<lparr>retries := 2\<rparr>"
  have h1: "retries ?o = int 2" and h2: "1 \<le> (2::nat)" by simp_all
  have h3: "\<forall>i<2. fetch ?E ''https://example.com'' (headers ?o) (timeoutMs ?o) i
                  = Normal ((\<lambda>i. ?r) i)
              \<and> \<not> ok ((\<lambda>i. ?r) i) \<and> res_text ((\<lambda>i. ?r) i) = Normal ((\<lambda>i. ''unavailable'') i)
              \<and> shouldRetry_of ?o ((\<lambda>i. ?r) i) ((\<lambda>i. ''unavailable'') i) = Normal True"
    by (simp add: mock_env_def mock_fetch_def mock_response_def shouldRetry_of_def
          baseOptions_def defaultShouldRetry_def)
  have s: "show_nat (status ?r) = ''503''"
    by (simp add: mock_response_def show_nat.simps)
  from retries_exhausted [OF h1 h2 h3] show ?thesis by (simp add: s)
qed

text \<open>
  C6. With an attempt budget of at least three and a transport answering with two
  non-ok responses that the predicate accepts and then an ok response,
  \<open>fetchRetrier\<close> returns the third response after exactly three invocations of the
  transport and exactly two delays, the backoffs of attempts 1 and 2.
\<close>

theorem two_retries_then_ok:
  assumes "3 \<le> retries options"
    and "fetch E url (headers options) (timeoutMs options) 0 = Normal r1"
    and "\<not> ok r1" and "res_text r1 = Normal b1"
    and "shouldRetry_of options r1 b1 = Normal True"
    and "fetch E url (headers options) (timeoutMs options) 1 = Normal r2"
    and "\<not> ok r2" and "res_text r2 = Normal b2"
    and "shouldRetry_of options r2 b2 = Normal True"
    and "fetch E url (headers options) (timeoutMs options) 2 = Normal r3"
    and "ok r3"
  shows "fetchRetrier E url options =
         (Returned r3,
          \<lparr>calls = 3,
             delays = [fullJitter (baseBackoffMs options) 1 (Math_random E 0),
                       fullJitter (baseBackoffMs options) 2 (Math_random E 1)],
             draws = 2,
             pred_log = [(r1, b1), (r2, b2)]\<rparr>)"
proof -
  define w1 where "w1 = \<lparr>calls = 1,
      delays = [fullJitter (baseBackoffMs options) 1 (Math_random E 0)],
      draws = 1, pred_log = [(r1, b1)]\<rparr>"
  define w2 where "w2 = \<lparr>calls = 2,
      delays = [fullJitter (baseBackoffMs options) 1 (Math_random E 0),
                fullJitter (baseBackoffMs options) 2 (Math_random E 1)],
      draws = 2, pred_log = [(r1, b1), (r2, b2)]\<rparr>"
  have a1: "int 1 < retries options" and a2: "int (Suc 1) < retries options"
    and a3: "int (Suc (Suc 1)) \<le> retries options"
    using assms(1) by simp_all
  have f1: "fetch E url (headers options) (timeoutMs options) (calls world0) = Normal r1"
    using assms(2) by (simp add: world0_def)
  have f2: "fetch E url (headers options) (timeoutMs options) (calls w1) = Normal r2"
    using assms(6) by (simp add: w1_def)
  have f3: "fetch E url (headers options) (timeoutMs options) (calls w2) = Normal r3"
    using assms(10) by (simp add: w2_def)
  have b1: "backoff E options 1
              (world0\<lparr>calls := Suc (calls world0), pred_log := pred_log world0 @ [(r1, b1)]\<rparr>)
            = w1"
    by (simp add: w1_def world0_def backoff_def wait_def)
  have b2: "backoff E options (Suc 1)
              (w1\<lparr>calls := Suc (calls w1), pred_log := pred_log w1 @ [(r2, b2)]\<rparr>) = w2"
    by (simp add: w1_def w2_def backoff_def wait_def numeral_2_eq_2)
  have "fetchRetrier E url options = attempt_loop E url options 1 world0"
    by (simp only: fetchRetrier_def)
  also have "\<dots> = attempt_loop E url options (Suc 1) w1"
    by (simp only: attempt_loop_retriable_more [OF a1 f1 assms(3-5)] b1)
  also have "\<dots> = attempt_loop E url options (Suc (Suc 1)) w2"
    by (simp only: attempt_loop_retriable_more [OF a2 f2 assms(7-9)] b2)
  also have "\<dots> = (Returned r3, w2\<lparr>calls := Suc (calls w2)\<rparr>)"
    by (rule attempt_loop_return [OF a3 try_block_ok [OF f3 assms(11)]])
  finally show ?thesis by (simp add: w2_def)
qed

theorem two_retries_then_ok_witness:
  "fetchRetrier
     (mock_env [Normal (mock_response False 429 ''rate limited''),
                Normal (mock_response False 503 ''unavailable'')]
        (Normal (mock_response True 200 ''ok'')))
     ''https://example.com'' baseOptions =
   (Returned (mock_response True 200 ''ok''),
    \<lparr>calls = 3, delays = [Finite 10, Finite 20], draws = 2,
       pred_log = [(mock_response False 429 ''rate limited'', ''rate limited''),
                   (mock_response False 503 ''unavailable'', ''unavailable'')]\<rparr>)"
proof -
  let ?r1 = "mock_response False 429 ''rate limited''"
  let ?r2 = "mock_response False 503 ''unavailable''"
  let ?r3 = "mock_response True 200 ''ok''"
  let ?E = "mock_env [Normal ?r1, Normal ?r2] (Normal ?r3)"
  let ?u = "''https://example.com''"
  have h: "3 \<le> retries baseOptions"
    "fetch ?E ?u (headers baseOptions) (timeoutMs baseOptions) 0 = Normal ?r1"
    "\<not> ok ?r1" "res_text ?r1 = Normal ''rate limited''"
    "shouldRetry_of baseOptions ?r1 ''rate limited'' = Normal True"
    "fetch ?E ?u (headers baseOptions) (timeoutMs baseOptions) 1 = Normal ?r2"
    "\<not> ok ?r2" "res_text ?r2 = Normal ''unavailable''"
    "shouldRetry_of baseOptions ?r2 ''unavailable'' = Normal True"
    "fetch ?E ?u (headers baseOptions) (timeoutMs baseOptions) 2 = Normal ?r3"
    "ok ?r3"
    by (simp_all add: mock_env_def mock_fetch_def mock_response_def shouldRetry_of_def
          baseOptions_def defaultShouldRetry_def)
  from two_retries_then_ok [OF h] show ?thesis
    by (simp add: number_simps baseOptions_def mock_env_def)
qed

end
